theory Spec2Isabelle
  imports Complex_Main
begin

section \<open>The gradebook data model (model.py)\<close>

text \<open>
  Python floats are modelled by the real numbers they denote (finite values, arithmetic
  without rounding). A value stored in a score dictionary is dynamically typed: the
  annotation \<^verbatim>\<open>Dict[str, float]\<close> is not enforced, so besides floats the model keeps
  three kinds of value on which \<^verbatim>\<open>float()\<close> raises: \<^verbatim>\<open>None\<close> and a list object
  (\<^verbatim>\<open>TypeError\<close>), and a string that is not the text of a number, such as \<^verbatim>\<open>"abc"\<close>
  (\<^verbatim>\<open>ValueError\<close>).
\<close>

datatype pyval = PFloat real | PNone | PList | PText

datatype error = TypeError | ValueError | IndexError

text \<open>The builtin \<^verbatim>\<open>float(v)\<close>.\<close>

fun py_float :: "pyval \<Rightarrow> error + real" where
  "py_float (PFloat x) = Inr x"
| "py_float PNone = Inl TypeError"
| "py_float PList = Inl TypeError"
| "py_float PText = Inl ValueError"

text \<open>\<^verbatim>\<open>d.get(k, default)\<close> on a dictionary.\<close>

definition dict_get :: "('k \<rightharpoonup> 'v) \<Rightarrow> 'k \<Rightarrow> 'v \<Rightarrow> 'v" where
  "dict_get d k dflt = (case d k of None \<Rightarrow> dflt | Some v \<Rightarrow> v)"

record Student =
  name :: string
  scores :: "string \<rightharpoonup> pyval"
  phone :: string
  note_str :: string

text \<open>
  Student objects live in a heap and are referred to by their identity (what \<^verbatim>\<open>id()\<close>
  returns); the students list of a gradebook is a list of such references, so the same
  object may occur in it more than once.
\<close>

type_synonym ref = nat

record GradeBook =
  subjects :: "string list"
  students :: "ref list"

record world =
  book :: GradeBook
  heap :: "ref \<Rightarrow> Student"

text \<open>
  \<^verbatim>\<open>Student.get_score\<close>: \<^verbatim>\<open>float(self.scores.get(subject, 0.0))\<close>. The conversion is not
  guarded, so its exception leaves the method. The world is passed through unchanged.
\<close>

definition get_score :: "ref \<Rightarrow> string \<Rightarrow> world \<Rightarrow> (error + pyval) \<times> world" where
  "get_score self subject w =
     (case py_float (dict_get (scores (heap w self)) subject (PFloat 0)) of
        Inl e \<Rightarrow> (Inl e, w)
      | Inr x \<Rightarrow> (Inr (PFloat x), w))"

text \<open>
  \<^verbatim>\<open>list.pop(i)\<close>: negative indices count from the end, an index out of range raises
  \<^verbatim>\<open>IndexError\<close>.
\<close>

definition list_pop :: "'a list \<Rightarrow> int \<Rightarrow> error + 'a list" where
  "list_pop xs i =
     (if i < - int (length xs) \<or> int (length xs) \<le> i then Inl IndexError
      else (let k = nat (if i < 0 then i + int (length xs) else i)
            in Inr (take k xs @ drop (Suc k) xs)))"

text \<open>\<^verbatim>\<open>GradeBook.remove_student\<close>: the pop is guarded by \<^verbatim>\<open>0 <= index < len(self.students)\<close>.\<close>

definition remove_student :: "int \<Rightarrow> world \<Rightarrow> (error + unit) \<times> world" where
  "remove_student index w =
     (if 0 \<le> index \<and> index < int (length (students (book w))) then
        (case list_pop (students (book w)) index of
           Inl e \<Rightarrow> (Inl e, w)
         | Inr xs \<Rightarrow> (Inr (), w\<lparr>book := (book w)\<lparr>students := xs\<rparr>\<rparr>))
      else (Inr (), w))"

section \<open>The scoring engine (core.py)\<close>

fun grade_from_avg :: "real \<Rightarrow> string" where
  "grade_from_avg avg =
     (if avg \<ge> 90 then ''A''
      else if avg \<ge> 80 then ''B''
      else if avg \<ge> 70 then ''C''
      else if avg \<ge> 60 then ''D''
      else ''F'')"

record ScoreResult =
  student :: ref
  total :: real
  avg :: real
  grade :: string
  rank :: "nat option"

text \<open>
  The \<^verbatim>\<open>try\<close> statement of \<^verbatim>\<open>recalculate\<close>: \<^verbatim>\<open>float(val) if val is not None else 0.0\<close>,
  with a handler that catches \<^verbatim>\<open>TypeError\<close> and \<^verbatim>\<open>ValueError\<close> and yields 0.0.
\<close>

definition coerce :: "pyval \<Rightarrow> error + real" where
  "coerce val =
     (if val \<noteq> PNone then
        (case py_float val of
           Inr v \<Rightarrow> Inr v
         | Inl TypeError \<Rightarrow> Inr 0
         | Inl ValueError \<Rightarrow> Inr 0
         | Inl e \<Rightarrow> Inl e)
      else Inr 0)"

text \<open>The inner loop over \<^verbatim>\<open>gradebook.subjects\<close>; \<^verbatim>\<open>get_score\<close> is called outside the \<^verbatim>\<open>try\<close>.\<close>

fun scores_loop :: "ref \<Rightarrow> string list \<Rightarrow> real list \<Rightarrow> world \<Rightarrow> (error + real list) \<times> world" where
  "scores_loop s [] acc w = (Inr acc, w)"
| "scores_loop s (subj # rest) acc w =
     (case get_score s subj w of
        (Inl e, w') \<Rightarrow> (Inl e, w')
      | (Inr val, w') \<Rightarrow>
          (case coerce val of
             Inl e \<Rightarrow> (Inl e, w')
           | Inr v \<Rightarrow> scores_loop s rest (acc @ [v]) w'))"

text \<open>The builtin \<^verbatim>\<open>sum\<close>: it starts from 0 and adds from the left.\<close>

definition py_sum :: "real list \<Rightarrow> real" where
  "py_sum xs = foldl (+) 0 xs"

text \<open>
  The loop over \<^verbatim>\<open>gradebook.students\<close>. The subject list is read from the gradebook anew
  for every student; \<^verbatim>\<open>subj_count\<close> was read once, before the loop.
\<close>

fun students_loop :: "ref list \<Rightarrow> nat \<Rightarrow> ScoreResult list \<Rightarrow> world \<Rightarrow> (error + ScoreResult list) \<times> world" where
  "students_loop [] subj_count results w = (Inr results, w)"
| "students_loop (s # rest) subj_count results w =
     (case scores_loop s (subjects (book w)) [] w of
        (Inl e, w') \<Rightarrow> (Inl e, w')
      | (Inr scs, w') \<Rightarrow>
          (let total = py_sum scs;
               avg = (if subj_count > 0 then total / real subj_count else 0);
               grade = grade_from_avg avg
           in students_loop rest subj_count
                (results @ [\<lparr>student = s, total = total, avg = avg, grade = grade, rank = None\<rparr>]) w'))"

text \<open>
  \<^verbatim>\<open>sorted(xs, key=..., reverse=True)\<close>: a stable sort into descending key order (elements
  with equal keys keep their original order).
\<close>

definition sorted_desc :: "('a \<Rightarrow> real) \<Rightarrow> 'a list \<Rightarrow> 'a list" where
  "sorted_desc key xs = sort_key (\<lambda>x. - key x) xs"

text \<open>
  The ranking loop over \<^verbatim>\<open>enumerate(sorted_by_total, start=1)\<close>, carrying \<^verbatim>\<open>last_total\<close>
  and \<^verbatim>\<open>last_rank\<close>.
\<close>

fun rank_loop :: "nat \<Rightarrow> ScoreResult list \<Rightarrow> real option \<Rightarrow> nat \<Rightarrow> ScoreResult list" where
  "rank_loop idx [] last_total last_rank = []"
| "rank_loop idx (item # items) last_total last_rank =
     (if last_total = None \<or> Some (total item) \<noteq> last_total
      then item\<lparr>rank := Some idx\<rparr> # rank_loop (Suc idx) items (Some (total item)) idx
      else item\<lparr>rank := Some last_rank\<rparr> # rank_loop (Suc idx) items last_total last_rank)"

text \<open>
  The dictionary comprehension \<^verbatim>\<open>{id(item["student"]): item["rank"] for item in ...}\<close>: a
  later item overwrites an earlier one with the same key.
\<close>

definition rank_map_of :: "ScoreResult list \<Rightarrow> (ref \<rightharpoonup> nat option)" where
  "rank_map_of items = fold (\<lambda>item m. m(student item \<mapsto> rank item)) items Map.empty"

definition recalculate :: "world \<Rightarrow> (error + ScoreResult list) \<times> world" where
  "recalculate w =
     (let subj_count = length (subjects (book w)) in
      case students_loop (students (book w)) subj_count [] w of
        (Inl e, w') \<Rightarrow> (Inl e, w')
      | (Inr results, w') \<Rightarrow>
          (let sorted_by_total = sorted_desc total results;
               ranked = rank_loop 1 sorted_by_total None 0;
               rank_map = rank_map_of ranked
           in (Inr (map (\<lambda>item. item\<lparr>rank := dict_get rank_map (student item) None\<rparr>) results), w')))"

section \<open>The table window (gui.py)\<close>

text \<open>The module's own copy of the grade function.\<close>

fun gui_grade_from_avg :: "real \<Rightarrow> string" where
  "gui_grade_from_avg a =
     (if a \<ge> 90 then ''A''
      else if a \<ge> 80 then ''B''
      else if a \<ge> 70 then ''C''
      else if a \<ge> 60 then ''D''
      else ''F'')"

text \<open>
  The ranking at the end of \<^verbatim>\<open>MainWindow.recalculate_all\<close>. The list \<^verbatim>\<open>totals\<close> holds one
  pair (row, total) per table row; the totals themselves come out of the Qt table and
  are taken as given here. The rank of a row is one more than its position in
  \<^verbatim>\<open>totals_sorted\<close>; a row missing from the dictionary would be shown as the empty string
  (\<open>None\<close> below).
\<close>

definition gui_rank_map :: "(nat \<times> real) list \<Rightarrow> (nat \<rightharpoonup> nat)" where
  "gui_rank_map totals =
     (let totals_sorted = sorted_desc snd totals
      in fold (\<lambda>(rank, (r_idx, _)) m. m(r_idx \<mapsto> rank + 1)) (enumerate 0 totals_sorted) Map.empty)"

definition recalculate_all_ranks :: "real list \<Rightarrow> nat option list" where
  "recalculate_all_ranks row_totals =
     (let totals = enumerate 0 row_totals;
          rank_map = gui_rank_map totals
      in map (\<lambda>r. rank_map r) [0..<length row_totals])"

section \<open>Notions used to state the properties\<close>

text \<open>A stored value is a float, as the annotation of \<^verbatim>\<open>Student.scores\<close> declares.\<close>

definition is_float :: "pyval \<Rightarrow> bool" where
  "is_float v = (case v of PFloat x \<Rightarrow> True | _ \<Rightarrow> False)"

text \<open>A student's entry for a subject is absent or a float.\<close>

definition stored_ok :: "Student \<Rightarrow> string \<Rightarrow> bool" where
  "stored_ok st subj = (case scores st subj of None \<Rightarrow> True | Some v \<Rightarrow> is_float v)"

text \<open>Every student of the roster has, for every subject of the roster, no entry or a float.\<close>

definition numeric_roster :: "world \<Rightarrow> bool" where
  "numeric_roster w =
     (\<forall>s \<in> set (students (book w)). \<forall>subj \<in> set (subjects (book w)). stored_ok (heap w s) subj)"

text \<open>The per-subject value of a student: the stored float, 0 when there is no entry.\<close>

definition subject_value :: "Student \<Rightarrow> string \<Rightarrow> real" where
  "subject_value st subj =
     (case scores st subj of None \<Rightarrow> 0 | Some v \<Rightarrow> (case v of PFloat x \<Rightarrow> x | _ \<Rightarrow> 0))"

definition student_total :: "world \<Rightarrow> ref \<Rightarrow> real" where
  "student_total w s = sum_list (map (subject_value (heap w s)) (subjects (book w)))"

definition student_avg :: "world \<Rightarrow> ref \<Rightarrow> real" where
  "student_avg w s =
     (if subjects (book w) = [] then 0
      else student_total w s / real (length (subjects (book w))))"

text \<open>One more than the number of totals strictly above \<open>t\<close>.\<close>

definition rank_of :: "real list \<Rightarrow> real \<Rightarrow> nat" where
  "rank_of ts t = Suc (length (filter (\<lambda>u. t < u) ts))"


definition base_result :: "world \<Rightarrow> ref \<Rightarrow> ScoreResult" where
  "base_result w s = \<lparr>student = s, total = student_total w s, avg = student_avg w s,
     grade = grade_from_avg (student_avg w s), rank = None\<rparr>"

definition with_rank :: "real list \<Rightarrow> ScoreResult \<Rightarrow> ScoreResult" where
  "with_rank ts item = item\<lparr>rank := Some (rank_of ts (total item))\<rparr>"

definition final_result :: "world \<Rightarrow> ref \<Rightarrow> ScoreResult" where
  "final_result w s = \<lparr>student = s, total = student_total w s, avg = student_avg w s,
     grade = grade_from_avg (student_avg w s),
     rank = Some (rank_of (map (student_total w) (students (book w))) (student_total w s))\<rparr>"

subsection \<open>Sample rosters\<close>

text \<open>Two subjects, three students; the third has no entry for the second subject.\<close>

definition w_demo :: world where
  "w_demo = \<lparr>book = \<lparr>subjects = [''kor'', ''math''], students = [0, 1, 2]\<rparr>,
     heap = (\<lambda>r. if r = 2
        then \<lparr>name = ''c'', scores = [''kor'' \<mapsto> PFloat 90], phone = '''', note_str = ''''\<rparr>
        else \<lparr>name = ''ab'', scores = [''kor'' \<mapsto> PFloat 100, ''math'' \<mapsto> PFloat 100],
               phone = '''', note_str = ''''\<rparr>)\<rparr>"

text \<open>One subject, totals 100, 100, 90.\<close>

definition w_tie2 :: world where
  "w_tie2 = \<lparr>book = \<lparr>subjects = [''math''], students = [0, 1, 2]\<rparr>,
     heap = (\<lambda>r. \<lparr>name = '''', scores = [''math'' \<mapsto> PFloat (if r = 2 then 90 else 100)],
                  phone = '''', note_str = ''''\<rparr>)\<rparr>"


text \<open>One subject, one student whose entry for it is \<^verbatim>\<open>None\<close>.\<close>

definition w_none :: world where
  "w_none = \<lparr>book = \<lparr>subjects = [''math''], students = [0]\<rparr>,
     heap = (\<lambda>r. \<lparr>name = ''a'', scores = [''math'' \<mapsto> PNone], phone = '''', note_str = ''''\<rparr>)\<rparr>"

text \<open>The same with the string \<^verbatim>\<open>"abc"\<close> as the entry.\<close>

definition w_text :: world where
  "w_text = \<lparr>book = \<lparr>subjects = [''math''], students = [0]\<rparr>,
     heap = (\<lambda>r. \<lparr>name = ''a'', scores = [''math'' \<mapsto> PText], phone = '''', note_str = ''''\<rparr>)\<rparr>"

text \<open>Students but no subjects; subjects but no students.\<close>

definition w_nosubj :: world where
  "w_nosubj = \<lparr>book = \<lparr>subjects = [], students = [0, 1]\<rparr>,
     heap = (\<lambda>r. \<lparr>name = '''', scores = [''math'' \<mapsto> PList], phone = '''', note_str = ''''\<rparr>)\<rparr>"

definition w_nostud :: world where
  "w_nostud = \<lparr>book = \<lparr>subjects = [''math''], students = []\<rparr>,
     heap = (\<lambda>r. \<lparr>name = '''', scores = Map.empty, phone = '''', note_str = ''''\<rparr>)\<rparr>"

section \<open>The aggregation loops\<close>

lemma get_score_ok:
  "stored_ok (heap w s) subj \<Longrightarrow> get_score s subj w = (Inr (PFloat (subject_value (heap w s) subj)), w)"
  by (auto simp: get_score_def stored_ok_def subject_value_def dict_get_def is_float_def
      split: option.splits pyval.splits)

lemma get_score_raises:
  "\<not> stored_ok (heap w s) subj \<Longrightarrow> \<exists>e. get_score s subj w = (Inl e, w)"
  by (auto simp: get_score_def stored_ok_def subject_value_def dict_get_def is_float_def
      split: option.splits pyval.splits)

lemma coerce_float: "coerce (PFloat x) = Inr x"
  by (simp add: coerce_def)

lemma scores_loop_ok:
  "\<forall>subj \<in> set subjs. stored_ok (heap w s) subj \<Longrightarrow>
   scores_loop s subjs acc w = (Inr (acc @ map (subject_value (heap w s)) subjs), w)"
  by (induction subjs arbitrary: acc) (simp_all add: get_score_ok coerce_float)

lemma scores_loop_raises:
  "\<not> (\<forall>subj \<in> set subjs. stored_ok (heap w s) subj) \<Longrightarrow>
   \<exists>e. scores_loop s subjs acc w = (Inl e, w)"
proof (induction subjs arbitrary: acc)
  case Nil
  then show ?case by simp
next
  case (Cons subj rest)
  show ?case
  proof (cases "stored_ok (heap w s) subj")
    case True
    with Cons.prems have "\<not> (\<forall>x \<in> set rest. stored_ok (heap w s) x)" by simp
    then show ?thesis using True Cons.IH by (simp add: get_score_ok coerce_float)
  next
    case False
    then obtain e where "get_score s subj w = (Inl e, w)"
      using get_score_raises by blast
    then show ?thesis by simp
  qed
qed

lemma foldl_add_sum_list: "foldl (+) a xs = (a::real) + sum_list xs"
  by (induction xs arbitrary: a) simp_all

lemma py_sum_sum_list: "py_sum xs = sum_list xs"
  by (simp add: py_sum_def foldl_add_sum_list)

lemma students_loop_ok:
  "\<forall>s \<in> set ss. \<forall>subj \<in> set (subjects (book w)). stored_ok (heap w s) subj \<Longrightarrow>
   students_loop ss (length (subjects (book w))) results w = (Inr (results @ map (base_result w) ss), w)"
proof (induction ss arbitrary: results)
  case Nil
  then show ?case by simp
next
  case (Cons s rest)
  have sl: "scores_loop s (subjects (book w)) [] w = (Inr (map (subject_value (heap w s)) (subjects (book w))), w)"
    using Cons.prems by (simp add: scores_loop_ok)
  have rec: "students_loop rest (length (subjects (book w))) (results @ [base_result w s]) w
     = (Inr ((results @ [base_result w s]) @ map (base_result w) rest), w)"
    using Cons.prems by (intro Cons.IH) simp
  have item: "\<lparr>student = s, total = py_sum (map (subject_value (heap w s)) (subjects (book w))),
      avg = (if length (subjects (book w)) > 0
             then py_sum (map (subject_value (heap w s)) (subjects (book w))) / real (length (subjects (book w)))
             else 0),
      grade = grade_from_avg (if length (subjects (book w)) > 0
             then py_sum (map (subject_value (heap w s)) (subjects (book w))) / real (length (subjects (book w)))
             else 0),
      rank = None\<rparr> = base_result w s"
    by (simp add: py_sum_sum_list base_result_def student_total_def student_avg_def del: grade_from_avg.simps)
  show ?case
    unfolding students_loop.simps sl prod.case sum.case Let_def item rec by simp
qed

lemma students_loop_raises:
  "\<not> (\<forall>s \<in> set ss. \<forall>subj \<in> set (subjects (book w)). stored_ok (heap w s) subj) \<Longrightarrow>
   \<exists>e. students_loop ss n results w = (Inl e, w)"
proof (induction ss arbitrary: results)
  case Nil
  then show ?case by simp
next
  case (Cons s rest)
  show ?case
  proof (cases "\<forall>subj \<in> set (subjects (book w)). stored_ok (heap w s) subj")
    case True
    with Cons.prems have "\<not> (\<forall>s \<in> set rest. \<forall>subj \<in> set (subjects (book w)). stored_ok (heap w s) subj)"
      by simp
    then show ?thesis using True Cons.IH by (simp add: scores_loop_ok Let_def del: grade_from_avg.simps)
  next
    case False
    then obtain e where "scores_loop s (subjects (book w)) [] w = (Inl e, w)"
      using scores_loop_raises by blast
    then show ?thesis by simp
  qed
qed

section \<open>The ranking loop\<close>

lemma rank_of_append: "rank_of (xs @ ys) t = length (filter (\<lambda>u. t < u) xs) + rank_of ys t"
  by (simp add: rank_of_def)

lemma rank_of_sort_key: "rank_of (map f (sort_key g xs)) t = rank_of (map f xs) t"
proof -
  have "length (filter ((\<lambda>u. t < u) \<circ> f) (sort_key g xs)) = length (filter ((\<lambda>u. t < u) \<circ> f) xs)"
    by (simp add: filter_sort)
  then show ?thesis by (simp add: rank_of_def filter_map)
qed

lemma sorted_map_last: "sorted (map f xs) \<Longrightarrow> y \<in> set xs \<Longrightarrow> f y \<le> f (last xs)"
proof (induction xs)
  case Nil
  then show ?case by simp
next
  case (Cons x xs)
  then show ?case by (cases "xs = []") auto
qed

lemma filter_none: "\<forall>x \<in> set xs. \<not> P x \<Longrightarrow> filter P xs = []"
  by (induction xs) simp_all

lemma filter_all: "\<forall>x \<in> set xs. P x \<Longrightarrow> filter P xs = xs"
  by (induction xs) simp_all

lemma rank_loop_sorted:
  assumes "sorted (map (\<lambda>x. - total x) (pre @ items))"
    and "pre = [] \<longrightarrow> lt = None"
    and "pre \<noteq> [] \<longrightarrow> lt = Some (total (last pre)) \<and> lr = rank_of (map total pre) (total (last pre))"
  shows "rank_loop (Suc (length pre)) items lt lr = map (with_rank (map total (pre @ items))) items"
  using assms
proof (induction items arbitrary: pre lt lr)
  case Nil
  then show ?case by simp
next
  case (Cons item items)
  let ?all = "map total (pre @ item # items)"
  have srt: "sorted (map (\<lambda>x. - total x) pre @ (- total item) # map (\<lambda>x. - total x) items)"
    using Cons.prems(1) by simp
  have below: "\<forall>y \<in> set items. total y \<le> total item"
    using srt by (auto simp: sorted_append)
  have above: "\<forall>y \<in> set pre. total item \<le> total y"
    using srt by (auto simp: sorted_append)
  have tail0: "filter (\<lambda>u. total item < u) (map total (item # items)) = []"
    using below by (intro filter_none) auto
  have r_item: "rank_of ?all (total item) = Suc (length (filter (\<lambda>u. total item < u) (map total pre)))"
    using tail0 by (simp add: rank_of_def)
  have sorted': "sorted (map (\<lambda>x. - total x) ((pre @ [item]) @ items))"
    using Cons.prems(1) by simp
  have inv': "rank_of (map total (pre @ [item])) (total (last (pre @ [item])))
      = rank_of ?all (total item)"
    using r_item by (simp add: rank_of_def)
  show ?case
  proof (cases "lt = None \<or> Some (total item) \<noteq> lt")
    case True
    have "rank_of ?all (total item) = Suc (length pre)"
    proof (cases "pre = []")
      case True
      then show ?thesis using r_item by simp
    next
      case False
      with Cons.prems(3) \<open>lt = None \<or> Some (total item) \<noteq> lt\<close>
      have ne: "total item \<noteq> total (last pre)" by auto
      have "sorted (map (\<lambda>x. - total x) pre)" using srt by (simp add: sorted_append)
      then have "\<forall>y \<in> set pre. total (last pre) \<le> total y"
        using sorted_map_last [of "\<lambda>x. - total x" pre] by auto
      moreover have "total item \<le> total (last pre)" using above False by simp
      ultimately have "\<forall>u \<in> set (map total pre). total item < u" using ne by fastforce
      then have "filter (\<lambda>u. total item < u) (map total pre) = map total pre"
        by (rule filter_all)
      then show ?thesis using r_item by simp
    qed
    moreover have "rank_loop (Suc (length (pre @ [item]))) items (Some (total item)) (Suc (length pre))
        = map (with_rank (map total ((pre @ [item]) @ items))) items"
      using sorted' inv' \<open>rank_of ?all (total item) = Suc (length pre)\<close>
      by (intro Cons.IH) simp_all
    ultimately show ?thesis using True by (simp add: with_rank_def)
  next
    case False
    then have lt: "lt = Some (total item)" by auto
    with Cons.prems(2) have ne: "pre \<noteq> []" by auto
    with Cons.prems(3) lt have eq: "total (last pre) = total item"
      and lr: "lr = rank_of (map total pre) (total item)" by auto
    have lr': "lr = rank_of ?all (total item)" using lr r_item by (simp add: rank_of_def)
    have "rank_loop (Suc (length (pre @ [item]))) items lt lr
        = map (with_rank (map total ((pre @ [item]) @ items))) items"
      using sorted' inv' lr' lt by (intro Cons.IH) simp_all
    then show ?thesis using lt lr' by (simp add: with_rank_def)
  qed
qed

lemma rank_loop_sorted_desc:
  "rank_loop 1 (sorted_desc total results) None 0
     = map (with_rank (map total results)) (sorted_desc total results)"
proof -
  have "rank_loop (Suc (length ([]::ScoreResult list))) (sorted_desc total results) None 0
     = map (with_rank (map total ([] @ sorted_desc total results))) (sorted_desc total results)"
    by (rule rank_loop_sorted) (simp_all add: sorted_desc_def)
  moreover have "with_rank (map total (sorted_desc total results)) = with_rank (map total results)"
    by (simp add: with_rank_def fun_eq_iff sorted_desc_def rank_of_sort_key)
  ultimately show ?thesis by simp
qed

section \<open>The result of recalculate\<close>

lemma fold_rank_map:
  "\<forall>item \<in> set items. rank item = h (student item) \<Longrightarrow>
   fold (\<lambda>item m. m(student item \<mapsto> rank item)) items m0 r
     = (if r \<in> student ` set items then Some (h r) else m0 r)"
  by (induction items arbitrary: m0) auto

lemma rank_map_of_ranked:
  assumes "s \<in> set ss"
  shows "dict_get (rank_map_of (rank_loop 1 (sorted_desc total (map (base_result w) ss)) None 0)) s None
     = Some (rank_of (map (student_total w) ss) (student_total w s))"
proof -
  let ?results = "map (base_result w) ss"
  let ?ts = "map (student_total w) ss"
  let ?ranked = "map (with_rank (map total ?results)) (sorted_desc total ?results)"
  have ts: "map total ?results = ?ts" by (simp add: base_result_def comp_def)
  have "\<forall>item \<in> set ?ranked. rank item = Some (rank_of ?ts (student_total w (student item)))"
    unfolding ts by (auto simp: with_rank_def sorted_desc_def base_result_def)
  then have "rank_map_of ?ranked s
      = (if s \<in> student ` set ?ranked then Some (Some (rank_of ?ts (student_total w s))) else Map.empty s)"
    unfolding rank_map_of_def by (rule fold_rank_map)
  moreover have "s \<in> student ` set ?ranked"
    using assms by (force simp: with_rank_def sorted_desc_def base_result_def image_iff)
  ultimately have "rank_map_of ?ranked s = Some (Some (rank_of ?ts (student_total w s)))"
    by (simp only: if_True)
  then show ?thesis
    unfolding rank_loop_sorted_desc dict_get_def by (simp only: option.case)
qed

lemma recalculate_ok:
  assumes "numeric_roster w"
  shows "recalculate w = (Inr (map (final_result w) (students (book w))), w)"
proof -
  let ?ss = "students (book w)"
  have loop: "students_loop ?ss (length (subjects (book w))) [] w = (Inr (map (base_result w) ?ss), w)"
    using assms students_loop_ok [of ?ss w "[]"] by (simp add: numeric_roster_def)
  have "map (\<lambda>item. item\<lparr>rank := dict_get (rank_map_of (rank_loop 1 (sorted_desc total (map (base_result w) ?ss)) None 0))
            (student item) None\<rparr>) (map (base_result w) ?ss)
      = map (final_result w) ?ss"
  proof (rule nth_equalityI)
    show "length (map (\<lambda>item. item\<lparr>rank := dict_get (rank_map_of (rank_loop 1 (sorted_desc total (map (base_result w) ?ss)) None 0))
            (student item) None\<rparr>) (map (base_result w) ?ss)) = length (map (final_result w) ?ss)"
      by simp
  next
    fix i
    assume "i < length (map (\<lambda>item. item\<lparr>rank := dict_get (rank_map_of (rank_loop 1 (sorted_desc total (map (base_result w) ?ss)) None 0))
            (student item) None\<rparr>) (map (base_result w) ?ss))"
    then have i: "i < length ?ss" by simp
    then have "?ss ! i \<in> set ?ss" by simp
    then have "dict_get (rank_map_of (rank_loop 1 (sorted_desc total (map (base_result w) ?ss)) None 0)) (?ss ! i) None
       = Some (rank_of (map (student_total w) ?ss) (student_total w (?ss ! i)))"
      by (rule rank_map_of_ranked)
    then show "map (\<lambda>item. item\<lparr>rank := dict_get (rank_map_of (rank_loop 1 (sorted_desc total (map (base_result w) ?ss)) None 0))
            (student item) None\<rparr>) (map (base_result w) ?ss) ! i = map (final_result w) ?ss ! i"
      using i by (simp add: base_result_def final_result_def del: grade_from_avg.simps)
  qed
  then show ?thesis
    unfolding recalculate_def Let_def loop prod.case sum.case by simp
qed

lemma recalculate_raises:
  assumes "\<not> numeric_roster w"
  shows "\<exists>e. recalculate w = (Inl e, w)"
proof -
  from assms obtain e
    where "students_loop (students (book w)) (length (subjects (book w))) [] w = (Inl e, w)"
    using students_loop_raises [of "students (book w)" w "length (subjects (book w))" "[]"]
    by (auto simp: numeric_roster_def)
  then show ?thesis by (simp add: recalculate_def)
qed



lemma recalculate_returns:
  assumes "recalculate w = (Inr rs, w')"
  shows "rs = map (final_result w) (students (book w)) \<and> w' = w"
proof (cases "numeric_roster w")
  case True
  then show ?thesis using assms by (auto simp: recalculate_ok)
next
  case False
  then obtain e where "recalculate w = (Inl e, w)"
    using recalculate_raises by blast
  then show ?thesis using assms by simp
qed

lemma demo_eval: "recalculate w_demo = (Inr [
   \<lparr>student = 0, total = 200, avg = 100, grade = ''A'', rank = Some 1\<rparr>,
   \<lparr>student = 1, total = 200, avg = 100, grade = ''A'', rank = Some 1\<rparr>,
   \<lparr>student = 2, total = 90, avg = 45, grade = ''F'', rank = Some 3\<rparr>], w_demo)"
  by (simp add: recalculate_def w_demo_def get_score_def dict_get_def coerce_def py_sum_def
      sorted_desc_def rank_map_of_def Let_def)

subsection \<open>The sample rosters, evaluated\<close>


lemma tie2_eval: "recalculate w_tie2 = (Inr [
   \<lparr>student = 0, total = 100, avg = 100, grade = ''A'', rank = Some 1\<rparr>,
   \<lparr>student = 1, total = 100, avg = 100, grade = ''A'', rank = Some 1\<rparr>,
   \<lparr>student = 2, total = 90, avg = 90, grade = ''A'', rank = Some 3\<rparr>], w_tie2)"
  by (simp add: recalculate_def w_tie2_def get_score_def dict_get_def coerce_def py_sum_def
      sorted_desc_def rank_map_of_def Let_def)


section \<open>Failure on stored values that are not numbers\<close>

text \<open>
  Claim C1 says that \<open>recalculate\<close> never raises and that a stored value that is not a
  number counts as 0.0. The code does not do this: \<open>get_score\<close> converts the stored value
  with \<^verbatim>\<open>float()\<close> before the \<^verbatim>\<open>try\<close> of \<open>recalculate\<close> is entered. On the roster with the
  single subject \<^verbatim>\<open>math\<close> and one student whose entry for it is \<^verbatim>\<open>None\<close>, the call ends
  with \<^verbatim>\<open>TypeError\<close>; with the entry \<^verbatim>\<open>"abc"\<close> it ends with \<^verbatim>\<open>ValueError\<close>. No record is
  returned in either case.
\<close>

theorem recalculate_raises_on_non_numeric:
  "scores (heap w_none 0) ''math'' = Some PNone \<and>
   get_score 0 ''math'' w_none = (Inl TypeError, w_none) \<and>
   recalculate w_none = (Inl TypeError, w_none) \<and>
   scores (heap w_text 0) ''math'' = Some PText \<and>
   get_score 0 ''math'' w_text = (Inl ValueError, w_text) \<and>
   recalculate w_text = (Inl ValueError, w_text)"
  by (simp add: recalculate_def w_none_def w_text_def get_score_def dict_get_def)

section \<open>Ranks\<close>

lemma ranks_of_totals:
  assumes "recalculate w = (Inr rs, w')"
  shows "map rank rs = map (\<lambda>t. Some (rank_of (map total rs) t)) (map total rs)"
proof -
  from assms have rs: "rs = map (final_result w) (students (book w))"
    by (simp add: recalculate_returns)
  have "map total rs = map (student_total w) (students (book w))"
    unfolding rs by (simp add: final_result_def comp_def)
  then show ?thesis unfolding rs by (simp add: final_result_def comp_def)
qed



text \<open>
  Claim C7. Every returned record carries a rank, and the rank is at least 1 and at most
  the number of students; a record without a rank is never returned.
\<close>

theorem recalculate_rank_range:
  assumes "recalculate w = (Inr rs, w')" and "r \<in> set rs"
  shows "\<exists>k. rank r = Some k \<and> 1 \<le> k \<and> k \<le> length (students (book w))"
proof -
  from assms(1) have rs: "rs = map (final_result w) (students (book w))"
    by (simp add: recalculate_returns)
  with assms(2) obtain s where s: "s \<in> set (students (book w))" and r: "r = final_result w s"
    by auto
  let ?ts = "map (student_total w) (students (book w))"
  have "student_total w s \<in> set ?ts" using s by simp
  moreover have "\<not> student_total w s < student_total w s" by simp
  ultimately have "length (filter (\<lambda>u. student_total w s < u) ?ts) < length ?ts"
    by (rule length_filter_less)
  then have "rank_of ?ts (student_total w s) \<le> length (students (book w))"
    by (simp add: rank_of_def)
  moreover have "1 \<le> rank_of ?ts (student_total w s)" by (simp add: rank_of_def)
  ultimately show ?thesis unfolding r by (simp add: final_result_def)
qed

theorem recalculate_rank_range_witness:
  "recalculate w_demo = (Inr [
     \<lparr>student = 0, total = 200, avg = 100, grade = ''A'', rank = Some 1\<rparr>,
     \<lparr>student = 1, total = 200, avg = 100, grade = ''A'', rank = Some 1\<rparr>,
     \<lparr>student = 2, total = 90, avg = 45, grade = ''F'', rank = Some 3\<rparr>], w_demo) \<and>
   (\<exists>k. rank \<lparr>student = 2, total = 90, avg = 45, grade = ''F'', rank = Some 3\<rparr> = Some k \<and>
        1 \<le> k \<and> k \<le> length (students (book w_demo)))"
  using recalculate_rank_range [OF demo_eval,
      of "\<lparr>student = 2, total = 90, avg = 45, grade = ''F'', rank = Some 3\<rparr>"] demo_eval
  by simp

section \<open>Totals and averages\<close>



section \<open>Shape of the result\<close>



text \<open>
  Claim C6. With no students the result is the empty list, whatever the subjects are.
  With at least one student and no subjects, every record has total 0, average 0,
  grade F and rank 1.
\<close>

theorem recalculate_degenerate_rosters:
  "(students (book w) = [] \<longrightarrow> recalculate w = (Inr [], w)) \<and>
   (students (book w) \<noteq> [] \<and> subjects (book w) = [] \<longrightarrow>
      (\<exists>rs. recalculate w = (Inr rs, w) \<and> length rs = length (students (book w)) \<and>
         (\<forall>r \<in> set rs. total r = 0 \<and> avg r = 0 \<and> grade r = ''F'' \<and> rank r = Some 1)))"
proof -
  have a: "students (book w) = [] \<longrightarrow> recalculate w = (Inr [], w)"
  proof
    assume e: "students (book w) = []"
    then have "numeric_roster w" by (simp add: numeric_roster_def)
    then show "recalculate w = (Inr [], w)" using e by (simp add: recalculate_ok)
  qed
  have b: "students (book w) \<noteq> [] \<and> subjects (book w) = [] \<longrightarrow>
      (\<exists>rs. recalculate w = (Inr rs, w) \<and> length rs = length (students (book w)) \<and>
         (\<forall>r \<in> set rs. total r = 0 \<and> avg r = 0 \<and> grade r = ''F'' \<and> rank r = Some 1))"
  proof
    assume h: "students (book w) \<noteq> [] \<and> subjects (book w) = []"
    then have "numeric_roster w" by (simp add: numeric_roster_def)
    then have r: "recalculate w = (Inr (map (final_result w) (students (book w))), w)"
      by (rule recalculate_ok)
    have z: "student_total w s = 0" for s using h by (simp add: student_total_def)
    have "final_result w s = \<lparr>student = s, total = 0, avg = 0, grade = ''F'', rank = Some 1\<rparr>" for s
      using h by (simp add: final_result_def z student_avg_def rank_of_def)
    then have "\<forall>r \<in> set (map (final_result w) (students (book w))).
        total r = 0 \<and> avg r = 0 \<and> grade r = ''F'' \<and> rank r = Some 1"
      by simp
    with r show "\<exists>rs. recalculate w = (Inr rs, w) \<and> length rs = length (students (book w)) \<and>
         (\<forall>r \<in> set rs. total r = 0 \<and> avg r = 0 \<and> grade r = ''F'' \<and> rank r = Some 1)"
      by (intro exI [of _ "map (final_result w) (students (book w))"]) simp
  qed
  from a b show ?thesis by blast
qed

theorem recalculate_degenerate_rosters_witness:
  "students (book w_nostud) = [] \<and> subjects (book w_nostud) = [''math''] \<and>
   recalculate w_nostud = (Inr [], w_nostud) \<and>
   students (book w_nosubj) = [0, 1] \<and> subjects (book w_nosubj) = [] \<and>
   (\<exists>rs. recalculate w_nosubj = (Inr rs, w_nosubj) \<and> length rs = 2 \<and>
      (\<forall>r \<in> set rs. total r = 0 \<and> avg r = 0 \<and> grade r = ''F'' \<and> rank r = Some 1))"
proof -
  have h1: "students (book w_nostud) = []" "subjects (book w_nostud) = [''math'']"
    by (simp_all add: w_nostud_def)
  have h2: "students (book w_nosubj) = [0, 1]" "subjects (book w_nosubj) = []"
    by (simp_all add: w_nosubj_def)
  from recalculate_degenerate_rosters [of w_nostud] h1
  have a: "recalculate w_nostud = (Inr [], w_nostud)" by blast
  from recalculate_degenerate_rosters [of w_nosubj] h2
  have "\<exists>rs. recalculate w_nosubj = (Inr rs, w_nosubj) \<and>
      length rs = length (students (book w_nosubj)) \<and>
      (\<forall>r \<in> set rs. total r = 0 \<and> avg r = 0 \<and> grade r = ''F'' \<and> rank r = Some 1)"
    by simp
  then have b: "\<exists>rs. recalculate w_nosubj = (Inr rs, w_nosubj) \<and> length rs = 2 \<and>
      (\<forall>r \<in> set rs. total r = 0 \<and> avg r = 0 \<and> grade r = ''F'' \<and> rank r = Some 1)"
    unfolding h2 by (simp add: numeral_2_eq_2)
  from h1 h2 a b show ?thesis by blast
qed

section \<open>The roster is only read\<close>

text \<open>
  Claim C9. A call of \<open>recalculate\<close>, whether it returns or raises, leaves the world as it
  was: the subjects list, the students list, and the name, scores, phone and note of
  every student object are what they were before the call. The records are values of
  their own; nothing is written to a student.
\<close>

theorem recalculate_frame:
  "snd (recalculate w) = w \<and>
   subjects (book (snd (recalculate w))) = subjects (book w) \<and>
   students (book (snd (recalculate w))) = students (book w) \<and>
   (\<forall>s. name (heap (snd (recalculate w)) s) = name (heap w s) \<and>
        scores (heap (snd (recalculate w)) s) = scores (heap w s) \<and>
        phone (heap (snd (recalculate w)) s) = phone (heap w s) \<and>
        note_str (heap (snd (recalculate w)) s) = note_str (heap w s))"
proof -
  have "snd (recalculate w) = w"
  proof (cases "numeric_roster w")
    case True
    then show ?thesis by (simp add: recalculate_ok)
  next
    case False
    then obtain e where "recalculate w = (Inl e, w)"
      using recalculate_raises by blast
    then show ?thesis by simp
  qed
  then show ?thesis by simp
qed

section \<open>Removing a student\<close>

text \<open>
  Claim C10. \<open>remove_student\<close> never raises. With an index from 0 up to below the number
  of students it removes the student at that position and nothing else; with any other
  index, negative or too large, it changes nothing. The subjects and the student objects
  stay as they are in both cases.
\<close>

theorem remove_student_guarded:
  "\<exists>w'. remove_student index w = (Inr (), w') \<and>
     heap w' = heap w \<and> subjects (book w') = subjects (book w) \<and>
     (0 \<le> index \<and> index < int (length (students (book w))) \<longrightarrow>
        students (book w') =
          take (nat index) (students (book w)) @ drop (Suc (nat index)) (students (book w)) \<and>
        length (students (book w')) + 1 = length (students (book w))) \<and>
     (index < 0 \<or> int (length (students (book w))) \<le> index \<longrightarrow> w' = w)"
  by (auto simp: remove_student_def list_pop_def Let_def)

theorem remove_student_guarded_witness:
  "remove_student 1 w_demo = (Inr (), w_demo\<lparr>book := \<lparr>subjects = [''kor'', ''math''], students = [0, 2]\<rparr>\<rparr>) \<and>
   remove_student (- 1) w_demo = (Inr (), w_demo) \<and>
   remove_student 3 w_demo = (Inr (), w_demo)"
  using remove_student_guarded [of 1 w_demo] remove_student_guarded [of "- 1" w_demo]
    remove_student_guarded [of 3 w_demo]
  by (auto simp: w_demo_def)

section \<open>The two implementations\<close>

text \<open>
  The rank the table window gives a row: the rank of the engine plus the number of earlier
  rows with the same total.
\<close>

lemma sorted_key_split:
  fixes k :: "'a \<Rightarrow> real"
  shows "sorted (map k xs) \<Longrightarrow>
   xs = filter (\<lambda>y. k y < c) xs @ filter (\<lambda>y. k y = c) xs @ filter (\<lambda>y. c < k y) xs"
proof (induction xs)
  case Nil
  then show ?case by simp
next
  case (Cons x xs)
  then have IH: "xs = filter (\<lambda>y. k y < c) xs @ filter (\<lambda>y. k y = c) xs @ filter (\<lambda>y. c < k y) xs"
    and le: "\<forall>y \<in> set xs. k x \<le> k y" by auto
  consider "k x < c" | "k x = c" | "c < k x" by linarith
  then show ?case
  proof cases
    case 1
    then show ?thesis using IH by simp
  next
    case 2
    with le have "filter (\<lambda>y. k y < c) xs = []" by (intro filter_none) auto
    then show ?thesis using 2 IH by simp
  next
    case 3
    with le have "filter (\<lambda>y. k y < c) xs = []" "filter (\<lambda>y. k y = c) xs = []"
      by (auto intro!: filter_none)
    then show ?thesis using 3 IH by simp
  qed
qed

lemma fold_gui_other:
  assumes F: "\<And>pos r' t' m. F (pos, (r', t')) m = m(r' \<mapsto> Suc pos)"
  shows "r \<notin> fst ` set vs \<Longrightarrow> fold F (enumerate n vs) m r = m r"
  by (induction vs arbitrary: n m) (auto simp: F)

lemma fold_gui_at:
  assumes F: "\<And>pos r' t' m. F (pos, (r', t')) m = m(r' \<mapsto> Suc pos)"
  shows "distinct (map fst (us @ (r, t) # vs)) \<Longrightarrow>
   fold F (enumerate n (us @ (r, t) # vs)) m r = Some (Suc (n + length us))"
proof (induction us arbitrary: n m)
  case Nil
  then have "r \<notin> fst ` set vs" by simp
  then have "fold F (enumerate (Suc n) vs) (m(r \<mapsto> Suc n)) r = (m(r \<mapsto> Suc n)) r"
    by (rule fold_gui_other [OF F])
  then show ?case by (simp add: F)
next
  case (Cons u us)
  obtain r' t' where u: "u = (r', t')" by (cases u)
  from Cons.prems have "distinct (map fst (us @ (r, t) # vs))" by simp
  then have "fold F (enumerate (Suc n) (us @ (r, t) # vs)) (m(r' \<mapsto> Suc n)) r
      = Some (Suc (Suc n + length us))"
    by (rule Cons.IH)
  then show ?case by (simp add: u F)
qed

lemma enumerate_nth_split:
  assumes r: "r < length ts"
  shows "enumerate 0 ts = enumerate 0 (take r ts) @ (r, ts ! r) # enumerate (Suc r) (drop (Suc r) ts)"
proof -
  have len: "length (take r ts) = r" using r by simp
  have "enumerate 0 (take r ts @ ts ! r # drop (Suc r) ts)
      = enumerate 0 (take r ts) @ enumerate (0 + length (take r ts)) (ts ! r # drop (Suc r) ts)"
    by (rule enumerate_append_eq)
  also have "\<dots> = enumerate 0 (take r ts) @ (r, ts ! r) # enumerate (Suc r) (drop (Suc r) ts)"
    unfolding len by simp
  finally show ?thesis using id_take_nth_drop [OF r] by simp
qed

lemma length_filter_enumerate:
  "length (filter (\<lambda>p. P (snd p)) (enumerate n ts)) = length (filter P ts)"
  by (induction ts arbitrary: n) simp_all

lemma distinct_rows_sorted:
  "distinct (map fst (sort_key k (enumerate 0 ts)))"
proof -
  have "distinct (map fst (enumerate 0 ts))" by simp
  then have "distinct (enumerate 0 ts) \<and> inj_on fst (set (enumerate 0 ts))"
    by (simp only: distinct_map)
  then show ?thesis by (simp add: distinct_map)
qed

lemma sorted_rows_split:
  fixes ts :: "real list"
  assumes r: "r < length ts"
  shows "\<exists>us vs. sort_key (\<lambda>p. - snd p) (enumerate 0 ts) = us @ (r, ts ! r) # vs \<and>
     length us = length (filter (\<lambda>u. ts ! r < u) ts) + length (filter (\<lambda>u. u = ts ! r) (take r ts))"
proof -
  let ?t = "ts ! r"
  let ?k = "\<lambda>p::nat \<times> real. - snd p"
  let ?xs = "sort_key ?k (enumerate 0 ts)"
  let ?hi = "filter (\<lambda>y. ?k y < - ?t) ?xs"
  let ?lo = "filter (\<lambda>y. - ?t < ?k y) ?xs"
  let ?eq1 = "filter (\<lambda>y. ?k y = - ?t) (enumerate 0 (take r ts))"
  let ?eq2 = "filter (\<lambda>y. ?k y = - ?t) (enumerate (Suc r) (drop (Suc r) ts))"
  have "sorted (map ?k ?xs)" by (rule sorted_sort_key)
  then have split: "?xs = ?hi @ filter (\<lambda>y. ?k y = - ?t) ?xs @ ?lo"
    by (rule sorted_key_split)
  have stable: "filter (\<lambda>y. ?k y = - ?t) ?xs = filter (\<lambda>y. ?k y = - ?t) (enumerate 0 ts)"
    by (rule sort_key_stable)
  have "filter (\<lambda>y. ?k y = - ?t) (enumerate 0 ts)
      = filter (\<lambda>y. ?k y = - ?t) (enumerate 0 (take r ts) @ (r, ?t) # enumerate (Suc r) (drop (Suc r) ts))"
    using enumerate_nth_split [OF r] by (rule arg_cong)
  also have "\<dots> = ?eq1 @ (r, ?t) # ?eq2" by simp
  finally have mid: "filter (\<lambda>y. ?k y = - ?t) ?xs = ?eq1 @ (r, ?t) # ?eq2"
    unfolding stable .
  have xs: "?xs = (?hi @ ?eq1) @ (r, ?t) # (?eq2 @ ?lo)"
    using split unfolding mid by simp
  have "length ?hi = length (filter (\<lambda>p. ?t < snd p) (enumerate 0 ts))"
    by (simp add: filter_sort)
  also have "\<dots> = length (filter (\<lambda>u. ?t < u) ts)" by (rule length_filter_enumerate)
  finally have l1: "length ?hi = length (filter (\<lambda>u. ?t < u) ts)" .
  have "length ?eq1 = length (filter (\<lambda>p. snd p = ?t) (enumerate 0 (take r ts)))"
    by simp
  also have "\<dots> = length (filter (\<lambda>u. u = ?t) (take r ts))" by (rule length_filter_enumerate)
  finally have l2: "length ?eq1 = length (filter (\<lambda>u. u = ?t) (take r ts))" .
  have "length (?hi @ ?eq1) = length (filter (\<lambda>u. ?t < u) ts) + length (filter (\<lambda>u. u = ?t) (take r ts))"
    by (simp only: length_append l1 l2)
  with xs show ?thesis by blast
qed

lemma gui_rank_map_at:
  fixes ts :: "real list"
  assumes r: "r < length ts"
  shows "gui_rank_map (enumerate 0 ts) r
     = Some (rank_of ts (ts ! r) + length (filter (\<lambda>u. u = ts ! r) (take r ts)))"
proof -
  obtain us vs where xs: "sort_key (\<lambda>p. - snd p) (enumerate 0 ts) = us @ (r, ts ! r) # vs"
    and len: "length us = length (filter (\<lambda>u. ts ! r < u) ts)
        + length (filter (\<lambda>u. u = ts ! r) (take r ts))"
    using sorted_rows_split [OF r] by blast
  have "distinct (map fst (sort_key (\<lambda>p. - snd p) (enumerate 0 ts)))"
    by (rule distinct_rows_sorted)
  then have d: "distinct (map fst (us @ (r, ts ! r) # vs))" unfolding xs .
  have F: "(\<lambda>(rank, (r_idx, _)) m. m(r_idx \<mapsto> rank + 1)) (pos, (r', t')) m = m(r' \<mapsto> Suc pos)"
    for pos r' and t' :: real and m :: "nat \<rightharpoonup> nat"
    by simp
  have "fold (\<lambda>(rank, (r_idx, _)) m. m(r_idx \<mapsto> rank + 1)) (enumerate 0 (us @ (r, ts ! r) # vs)) Map.empty r
      = Some (Suc (0 + length us))"
    using F d by (rule fold_gui_at)
  then have "gui_rank_map (enumerate 0 ts) r = Some (Suc (length us))"
    unfolding gui_rank_map_def sorted_desc_def Let_def xs by simp
  then show ?thesis unfolding len rank_of_def by simp
qed

lemma recalculate_all_ranks_nth:
  fixes ts :: "real list"
  assumes "r < length ts"
  shows "recalculate_all_ranks ts ! r
     = Some (rank_of ts (ts ! r) + length (filter (\<lambda>u. u = ts ! r) (take r ts)))"
  using assms by (simp add: recalculate_all_ranks_def Let_def gui_rank_map_at)

lemma gui_rank_vs_engine:
  assumes "recalculate w = (Inr rs, w')" and "i < length rs"
  shows "\<exists>k. rank (rs ! i) = Some k \<and>
     recalculate_all_ranks (map total rs) ! i
       = Some (k + length (filter (\<lambda>u. u = total (rs ! i)) (take i (map total rs))))"
proof -
  have "map rank rs ! i = map (\<lambda>t. Some (rank_of (map total rs) t)) (map total rs) ! i"
    by (simp only: ranks_of_totals [OF assms(1)])
  then have k: "rank (rs ! i) = Some (rank_of (map total rs) (total (rs ! i)))"
    using assms(2) by simp
  have "recalculate_all_ranks (map total rs) ! i
      = Some (rank_of (map total rs) (map total rs ! i)
          + length (filter (\<lambda>u. u = map total rs ! i) (take i (map total rs))))"
    using assms(2) by (intro recalculate_all_ranks_nth) simp
  then show ?thesis using k assms(2) by simp
qed

text \<open>
  Claim C8 says that the grade functions and the ranking procedures of \<^verbatim>\<open>core.py\<close> and
  \<^verbatim>\<open>gui.py\<close> agree. The grade functions do. The ranking procedures do not: the table
  window numbers the sorted rows 1, 2, 3, ... and has no tie handling. On the totals
  100, 100, 90 the engine assigns the ranks 1, 1, 3 and the table window 1, 2, 3.
\<close>

theorem gui_ranks_ignore_ties:
  "(\<forall>a. gui_grade_from_avg a = grade_from_avg a) \<and>
   map total [\<lparr>student = 0, total = 100, avg = 100, grade = ''A'', rank = Some 1\<rparr>,
     \<lparr>student = 1, total = 100, avg = 100, grade = ''A'', rank = Some 1\<rparr>,
     \<lparr>student = 2, total = 90, avg = 90, grade = ''A'', rank = Some 3\<rparr>] = [100, 100, 90] \<and>
   recalculate w_tie2 = (Inr [
     \<lparr>student = 0, total = 100, avg = 100, grade = ''A'', rank = Some 1\<rparr>,
     \<lparr>student = 1, total = 100, avg = 100, grade = ''A'', rank = Some 1\<rparr>,
     \<lparr>student = 2, total = 90, avg = 90, grade = ''A'', rank = Some 3\<rparr>], w_tie2) \<and>
   recalculate_all_ranks [100, 100, 90] = [Some 1, Some 2, Some 3]"
proof -
  have "recalculate_all_ranks [100, 100, 90] = [Some 1, Some 2, Some 3]"
    by (simp add: recalculate_all_ranks_def gui_rank_map_def sorted_desc_def enumerate_eq_zip Let_def upt_rec)
  then show ?thesis using tie2_eval by simp
qed

section \<open>Grades\<close>

text \<open>
  Claim C3. The grade is the step function of the average with inclusive lower bounds:
  at least 90 gives A, from 80 up to below 90 gives B, from 70 up to below 80 gives C,
  from 60 up to below 70 gives D, below 60 gives F; the boundary values 90, 80, 70 and 60
  themselves fall into the upper band.
\<close>

theorem grade_from_avg_bands:
  "(90 \<le> a \<longrightarrow> grade_from_avg a = ''A'') \<and>
   (80 \<le> a \<and> a < 90 \<longrightarrow> grade_from_avg a = ''B'') \<and>
   (70 \<le> a \<and> a < 80 \<longrightarrow> grade_from_avg a = ''C'') \<and>
   (60 \<le> a \<and> a < 70 \<longrightarrow> grade_from_avg a = ''D'') \<and>
   (a < 60 \<longrightarrow> grade_from_avg a = ''F'') \<and>
   grade_from_avg 90 = ''A'' \<and> grade_from_avg 80 = ''B'' \<and>
   grade_from_avg 70 = ''C'' \<and> grade_from_avg 60 = ''D''"
  by simp

theorem grade_from_avg_bands_witness:
  "grade_from_avg 90 = ''A'' \<and> grade_from_avg 89.999 = ''B'' \<and> grade_from_avg 80 = ''B'' \<and>
   grade_from_avg 79.999 = ''C'' \<and> grade_from_avg 70 = ''C'' \<and> grade_from_avg 69.999 = ''D'' \<and>
   grade_from_avg 60 = ''D'' \<and> grade_from_avg 59.999 = ''F''"
  using grade_from_avg_bands [of 90] grade_from_avg_bands [of "89.999"]
    grade_from_avg_bands [of 80] grade_from_avg_bands [of "79.999"]
    grade_from_avg_bands [of 70] grade_from_avg_bands [of "69.999"]
    grade_from_avg_bands [of 60] grade_from_avg_bands [of "59.999"]
  by simp

end
